theory Spec2Isabelle
  imports Main
begin

section \<open>The GPRS command orchestrator (index.js) as state-passing functions\<close>

text \<open>
  The orchestrator of the SIM900 driver is written in continuation-passing JavaScript:
  every operation hands a callback to \<^verbatim>\<open>postmaster.send\<close> and returns. The Postmaster
  and the Packetizer are separate modules; here the Postmaster is the environment. Its
  answer to the \<open>n\<close>-th request (the arguments \<open>(err, data)\<close> it gives to that request's
  callback) is a parameter \<open>env n\<close>, and every call it receives is recorded in a trace.
  Each operation is modelled in direct style: it returns how it called its own callback
  (or that it threw, or that it never called it) and the updated orchestrator.

  What is taken for granted about the collaborators: the Postmaster calls the callback of
  every request once, after \<^verbatim>\<open>send\<close> has returned, with an error or \<^verbatim>\<open>null\<close> and an
  array of frames; the caller of an operation supplies a callback; one operation runs at
  a time, so that the only listener on the event \<^verbatim>\<open>intermediate\<close> is the one of the
  running chain; frames and commands are ASCII strings.

  The repository holds two revisions of the file. They agree on \<^verbatim>\<open>_txrx\<close>,
  \<^verbatim>\<open>chain\<close> (\<^verbatim>\<open>_chain\<close> in the second), \<^verbatim>\<open>dial\<close>, \<^verbatim>\<open>notify\<close> and \<^verbatim>\<open>notifyOn\<close>
  up to comments and the text of two messages, and differ in \<^verbatim>\<open>_establishContact\<close>,
  \<^verbatim>\<open>togglePower\<close> and the argument check of \<^verbatim>\<open>sendSMS\<close>; where they differ both are
  modelled, the second with the suffix \<open>2\<close>.
\<close>

subsection \<open>Values\<close>

text \<open>\<^verbatim>\<open>new Error(message)\<close>, with the \<^verbatim>\<open>type\<close> property that \<^verbatim>\<open>_establishContact\<close> reads.\<close>

datatype jserror = JSError (errMessage: string) (errType: "string option")

text \<open>
  The second argument of a callback: \<^verbatim>\<open>false\<close>, \<^verbatim>\<open>null\<close>, an array of frames, or the
  one-element array \<^verbatim>\<open>[id]\<close> of \<^verbatim>\<open>sendSMS\<close> (\<open>None\<close> is \<^verbatim>\<open>NaN\<close>).
\<close>

datatype data = DFalse | DNull | DFrames "string list" | DId "int option"

text \<open>
  An entry of \<^verbatim>\<open>replies\<close>: \<^verbatim>\<open>null\<close> or \<^verbatim>\<open>undefined\<close> (reading a property of it throws),
  another false-y value (\<^verbatim>\<open>false\<close>, \<^verbatim>\<open>0\<close>, the empty string: reading a property gives
  \<^verbatim>\<open>undefined\<close>), or an array of strings (truth-y, also when empty).
\<close>

datatype expected = Nullish | Falsy | Frames "string list"

text \<open>
  The \<^verbatim>\<open>alternate\<close> argument \<^verbatim>\<open>[[s1, ...], [e1, ...], flag]\<close>. An end token can be
  \<^verbatim>\<open>undefined\<close> (\<open>None\<close>); a missing third element is false-y.
\<close>

datatype alternate = Alternate (starts: "string list") (ends: "string option list") (anywhere: bool)

text \<open>What the orchestrator does to its collaborators and listeners, in order.\<close>

datatype event =
    Send string int "alternate option"
  | ForceClear
  | Subscribe
  | PowerHigh
  | PowerLow
  | Delay nat
  | Emit string "bool list"
  | Handler string string

text \<open>
  A value of \<^verbatim>\<open>notificationCallbacks\<close>: a handler (named by a string) or the array of
  wildcard handlers kept under the key \<^verbatim>\<open>_everyTime\<close>.
\<close>

datatype nvalue = Fn string | Arr "string list"

text \<open>
  The orchestrator. \<open>subscriptions\<close> counts the listeners that \<^verbatim>\<open>notify\<close> has put on
  the Postmaster's \<^verbatim>\<open>unsolicited\<close> channel; \<open>sent\<close> counts the requests given to the
  Postmaster; \<open>receiverInACall\<close> is the \<^verbatim>\<open>inACall\<close> property of the object that is
  \<^verbatim>\<open>this\<close> inside a request callback (\<open>None\<close>: never written).
\<close>

record gprs =
  inACall :: bool
  notificationCallbacks :: "(string \<times> nvalue) list"
  subscriptions :: nat
  sent :: nat
  receiverInACall :: "bool option"
  trace :: "event list"

text \<open>How an operation ends: it calls its callback, never calls it, or throws.\<close>

datatype outcome = Called "jserror option" data | Silent | Threw string

type_synonym reply = "jserror option \<times> string list"
type_synonym env = "nat \<Rightarrow> reply"

text \<open>
  The constructor \<^verbatim>\<open>GPRS\<close>, as far as the fields above go. The trace starts after
  it: the one call \<^verbatim>\<open>hardware.gpio(3).high()\<close> that it makes is not recorded.
\<close>

definition GPRS :: gprs where
  "GPRS = \<lparr> inACall = False,
            notificationCallbacks = [(''_everyTime'', Arr [])],
            subscriptions = 0,
            sent = 0,
            receiverInACall = None,
            trace = [] \<rparr>"

definition record_event :: "event \<Rightarrow> gprs \<Rightarrow> gprs" where
  "record_event e st = st\<lparr>trace := trace st @ [e]\<rparr>"

subsection \<open>\<^verbatim>\<open>_txrx\<close>\<close>

text \<open>
  \<^verbatim>\<open>message || 'AT'\<close>, \<^verbatim>\<open>patience || 250\<close>, \<^verbatim>\<open>Math.max(patience, 100)\<close>, then
  \<^verbatim>\<open>postmaster.send\<close>. Patience is a whole number of milliseconds. The result is the
  Postmaster's answer to this request, with which it calls the callback later, and the
  orchestrator after the call of \<^verbatim>\<open>send\<close>.
\<close>

definition txrx :: "env \<Rightarrow> string \<Rightarrow> int \<Rightarrow> alternate option \<Rightarrow> gprs \<Rightarrow> reply \<times> gprs" where
  "txrx env message patience alt st =
     (let message = (if message = [] then ''AT'' else message);
          patience = (if patience = 0 then 250 else patience);
          patience = max patience 100
      in (env (sent st),
          record_event (Send message patience alt) (st\<lparr>sent := Suc (sent st)\<rparr>)))"

subsection \<open>\<^verbatim>\<open>togglePower\<close>\<close>

text \<open>
  Raise the power line, wait 100 ms, lower it, wait, raise it, wait 5000 ms, emit
  \<^verbatim>\<open>powerToggled\<close>, call the callback. The waits of \<^verbatim>\<open>setTimeout\<close> are recorded
  as \<open>Delay\<close> events; the line stays low for 1000 ms in the first revision and for
  1500 ms in the second.
\<close>

definition powerCycle :: "nat \<Rightarrow> event list" where
  "powerCycle hold =
     [PowerHigh, Delay 100, PowerLow, Delay hold, PowerHigh, Delay 5000, Emit ''powerToggled'' []]"

definition togglePower :: "gprs \<Rightarrow> gprs" where
  "togglePower st = st\<lparr>trace := trace st @ powerCycle 1000\<rparr>"

definition togglePower2 :: "gprs \<Rightarrow> gprs" where
  "togglePower2 st = st\<lparr>trace := trace st @ powerCycle 1500\<rparr>"

subsection \<open>\<^verbatim>\<open>_establishContact\<close>\<close>

text \<open>Decimal digits of a number, as string concatenation with a number gives them.\<close>

fun showNat :: "nat \<Rightarrow> string" where
  "showNat n =
     (if n < 10 then [char_of (48 + n)] else showNat (n div 10) @ [char_of (48 + n mod 10)])"

definition backslash :: char where
  "backslash = CHR 0x5C"

definition NUL :: char where
  "NUL = CHR 0x00"

text \<open>The reply pattern of the probe in the first revision and in the second.\<close>

definition probePattern :: alternate where
  "probePattern =
     Alternate [''AT'', backslash # ''x00AT'', NUL # ''AT''] [Some ''OK''] True"

definition probePattern2 :: alternate where
  "probePattern2 =
     Alternate [''AT'', backslash # ''x00AT'', NUL # ''AT'', ''OK''] [Some ''OK''] True"

definition contactFailed :: "nat \<Rightarrow> jserror" where
  "contactFailed reps =
     JSError (''Failed to connect to module because it could not be powered on and contacted after ''
              @ showNat reps @ '' attempt(s)'') None"

text \<open>
  The first revision. An absent \<open>rep\<close> or \<open>reps\<close> is \<open>0\<close>: \<^verbatim>\<open>rep || 0\<close> and
  \<^verbatim>\<open>reps || 5\<close> treat both alike. The probe's callback \<^verbatim>\<open>checkIfWeContacted\<close> is the
  \<open>case\<close> on the Postmaster's answer.
\<close>

function establishContact :: "env \<Rightarrow> nat \<Rightarrow> nat \<Rightarrow> gprs \<Rightarrow> outcome \<times> gprs" where
  "establishContact env rep reps st =
     (let reps = (if reps = 0 then 5 else reps) in
      if rep > reps then (Called (Some (contactFailed reps)) DFalse, st)
      else
        (case txrx env ''AT'' 1000 (Some probePattern) st of
           ((err, received), st1) \<Rightarrow>
             (case err of
                Some e \<Rightarrow>
                  if errType e = Some ''timeout''
                  then establishContact env (rep + 1) reps (togglePower st1)
                  else (Called err DFalse, st1)
              | None \<Rightarrow>
                  (Called None (DFrames received), record_event (Emit ''ready'' []) st1))))"
  by pat_completeness auto
termination
  by (relation "measure (\<lambda>(env, rep, reps, st). Suc (if reps = 0 then 5 else reps) - rep)") auto

text \<open>
  The second revision has no test of \<open>rep\<close> against \<open>reps\<close>, so the recursion need not
  end: not returning is \<open>None\<close>.
\<close>

partial_function (option) establishContact2 ::
    "env \<Rightarrow> nat \<Rightarrow> nat \<Rightarrow> gprs \<Rightarrow> (outcome \<times> gprs) option" where
  "establishContact2 env rep reps st =
     (let reps = (if reps = 0 then 5 else reps) in
      (case txrx env ''AT'' 1000 (Some probePattern2) st of
         ((err, received), st1) \<Rightarrow>
           (case err of
              Some e \<Rightarrow>
                if errType e = Some ''timeout''
                then establishContact2 env (rep + 1) reps (togglePower2 st1)
                else Some (Called err DFalse, st1)
            | None \<Rightarrow>
                Some (Called None (DFrames received), record_event (Emit ''ready'' []) st1))))"

text \<open>\<^verbatim>\<open>use\<close> starts contact with the callback alone.\<close>

definition use :: "env \<Rightarrow> outcome \<times> gprs" where
  "use env = establishContact env 0 0 GPRS"

definition use2 :: "env \<Rightarrow> (outcome \<times> gprs) option" where
  "use2 env = establishContact2 env 0 0 GPRS"

subsection \<open>\<^verbatim>\<open>chain\<close>\<close>

text \<open>\<^verbatim>\<open>xs[i]\<close>, which is \<^verbatim>\<open>undefined\<close> outside the array.\<close>

definition at :: "'a list \<Rightarrow> nat \<Rightarrow> 'a option" where
  "at xs i = (if i < length xs then Some (xs ! i) else None)"

text \<open>
  \<^verbatim>\<open>replies[0][replies[0].length - 1]\<close>: a \<^verbatim>\<open>TypeError\<close> when the entry is
  \<^verbatim>\<open>null\<close>, \<^verbatim>\<open>undefined\<close> for another false-y entry and for the empty array.
\<close>

fun lastToken :: "expected \<Rightarrow> string + string option" where
  "lastToken Nullish = Inl ''TypeError''"
| "lastToken Falsy = Inr None"
| "lastToken (Frames xs) = Inr (if xs = [] then None else Some (last xs))"

text \<open>
  The callback \<^verbatim>\<open>intermediate\<close> of every step but the last: \<open>correct\<close> starts as
  \<^verbatim>\<open>!err\<close>; when the expected entry is truth-y, the loop runs over the indices of the
  received frames and looks \<^verbatim>\<open>replies[0][i]\<close> up among \<^verbatim>\<open>data[i]\<close>,
  \<^verbatim>\<open>'\\x00' + data[i]\<close> (a backslash and three characters before it) and
  \<^verbatim>\<open>'\x00' + data[i]\<close> (a NUL before it).
\<close>

definition variants :: "string \<Rightarrow> string list" where
  "variants d = [d, backslash # ''x00'' @ d, NUL # d]"

definition intermediate :: "expected \<Rightarrow> jserror option \<Rightarrow> string list \<Rightarrow> bool" where
  "intermediate r err received =
     (let correct = (err = None) in
      case r of
        Frames expect \<Rightarrow>
          foldl (\<lambda>correct i. correct \<and>
                   (case at expect i of None \<Rightarrow> False
                    | Some e \<Rightarrow> e \<in> set (variants (received ! i))))
                correct [0..<length received]
      | _ \<Rightarrow> correct)"

definition chainBroke :: "string \<Rightarrow> jserror" where
  "chainBroke m = JSError (''chain broke on '' @ m) None"

text \<open>
  \<^verbatim>\<open>chain\<close>. A step that is not the last gets \<^verbatim>\<open>intermediate\<close> as its callback, which
  emits the event \<^verbatim>\<open>intermediate\<close>; the listener put on that event with \<^verbatim>\<open>once\<close>
  right after the request either runs the rest of the chain or clears the Postmaster and
  calls the callback. The last step gets the chain's callback itself. With no message at
  all nothing is done.
\<close>

fun chain :: "env \<Rightarrow> string list \<Rightarrow> int list \<Rightarrow> expected list \<Rightarrow> gprs \<Rightarrow> outcome \<times> gprs" where
  "chain env messages patiences replies st =
     (if length messages \<noteq> length patiences \<or> length messages \<noteq> length replies
      then (Called (Some (JSError ''array lengths must match'' None)) DFalse, st)
      else if length messages > 0 then
        (case lastToken (hd replies) of
           Inl exn \<Rightarrow> (Threw exn, st)
         | Inr token \<Rightarrow>
             (case txrx env (hd messages) (hd patiences)
                     (Some (Alternate [hd messages] [token] False)) st of
                ((err, received), st1) \<Rightarrow>
                  if length messages = 1 then (Called err (DFrames received), st1)
                  else
                    (let correct = intermediate (hd replies) err received;
                         st2 = record_event (Emit ''intermediate'' [correct]) st1
                     in if correct
                        then chain env (tl messages) (tl patiences) (tl replies) st2
                        else (Called (Some (chainBroke (hd messages))) DFalse,
                              record_event ForceClear st2))))
      else (Silent, st))"

subsection \<open>Voice calls\<close>

text \<open>
  \<^verbatim>\<open>dial\<close>. The callback given to \<^verbatim>\<open>_txrx\<close> is an ordinary function that writes
  \<^verbatim>\<open>this.inACall\<close>; it is called by the Postmaster, which is built from the packetizer
  alone and holds no reference to the orchestrator, so \<^verbatim>\<open>this\<close> is another object:
  the write goes to \<open>receiverInACall\<close>.
\<close>

definition dial :: "env \<Rightarrow> string \<Rightarrow> gprs \<Rightarrow> outcome \<times> gprs" where
  "dial env number st =
     (if inACall st
      then (Called (Some (JSError ''Currently in a call'' None)) (DFrames []), st)
      else if number = [] \<or> length number < 10
      then (Called (Some (JSError ''Number must be at least 10 digits'' None)) (DFrames []), st)
      else
        (case txrx env (''ATD'' @ number @ '';'') (1000 * 60 * 60 * 24 * 365) None
                (st\<lparr>inACall := True\<rparr>) of
           ((err, received), st1) \<Rightarrow>
             (Called err (DFrames received), st1\<lparr>receiverInACall := Some False\<rparr>)))"

text \<open>\<^verbatim>\<open>answerCall\<close> and \<^verbatim>\<open>hangUp\<close> write the flag through \<^verbatim>\<open>self\<close>.\<close>

definition answerCall :: "env \<Rightarrow> gprs \<Rightarrow> outcome \<times> gprs" where
  "answerCall env st =
     (case txrx env ''ATA'' 10000 None st of
        ((err, received), st1) \<Rightarrow>
          (Called err (DFrames received),
           if err = None then st1\<lparr>inACall := True\<rparr> else st1))"

definition hangUp :: "env \<Rightarrow> gprs \<Rightarrow> outcome \<times> gprs" where
  "hangUp env st =
     (case txrx env ''ATH'' 100000 None st of
        ((err, received), st1) \<Rightarrow>
          (Called err (DFrames received), st1\<lparr>inACall := False\<rparr>))"

subsection \<open>Notifications\<close>

text \<open>
  Assignment to a property: an existing key keeps its place, a new one goes last. The
  order in which \<^verbatim>\<open>Object.keys\<close> lists the keys is taken to be this order, which
  it is for keys that are not written like array indices; keys such as \<^verbatim>\<open>'12'\<close>
  are listed first, in ascending order, and are outside this model.
\<close>

fun assign :: "string \<Rightarrow> nvalue \<Rightarrow> (string \<times> nvalue) list \<Rightarrow> (string \<times> nvalue) list" where
  "assign k v [] = [(k, v)]"
| "assign k v ((k', v') # kvs) =
     (if k = k' then (k, v) # kvs else (k', v') # assign k v kvs)"

text \<open>\<^verbatim>\<open>data.indexOf(key) === 0\<close> on strings.\<close>

definition startsWith :: "string \<Rightarrow> string \<Rightarrow> bool" where
  "startsWith frame key = (take (length key) frame = key)"

text \<open>\<^verbatim>\<open>notify\<close> puts one more listener on the Postmaster's \<^verbatim>\<open>unsolicited\<close> channel.\<close>

definition notify :: "gprs \<Rightarrow> gprs" where
  "notify st = record_event Subscribe (st\<lparr>subscriptions := Suc (subscriptions st)\<rparr>)"

text \<open>
  The loop of \<^verbatim>\<open>everyTime.forEach\<close> in \<^verbatim>\<open>notifyOn\<close>: \<^verbatim>\<open>push\<close> on the value kept
  under \<^verbatim>\<open>_everyTime\<close>, a \<^verbatim>\<open>TypeError\<close> when that is no array.
\<close>

fun pushEach :: "string list \<Rightarrow> gprs \<Rightarrow> outcome \<times> gprs" where
  "pushEach [] st = (Silent, st)"
| "pushEach (f # fs) st =
     (case map_of (notificationCallbacks st) ''_everyTime'' of
        Some (Arr ws) \<Rightarrow>
          pushEach fs (st\<lparr>notificationCallbacks :=
                            assign ''_everyTime'' (Arr (ws @ [f])) (notificationCallbacks st)\<rparr>)
      | _ \<Rightarrow> (Threw ''TypeError'', st))"

text \<open>
  \<^verbatim>\<open>notifyOn(pairs, everyTime)\<close>: \<open>pairs\<close> lists the keys of the object with their
  handlers, \<open>everyTime\<close> is \<open>None\<close> when the argument is absent.
\<close>

definition notifyOn :: "(string \<times> string) list \<Rightarrow> string list option \<Rightarrow> gprs \<Rightarrow> outcome \<times> gprs" where
  "notifyOn pairs everyTime st =
     (let st1 = (if length (notificationCallbacks st) < 2 then notify st else st);
          st2 = foldl (\<lambda>s (newKey, h).
                   s\<lparr>notificationCallbacks := assign newKey (Fn h) (notificationCallbacks s)\<rparr>)
                 st1 pairs
      in case everyTime of None \<Rightarrow> (Silent, st2) | Some fs \<Rightarrow> pushEach fs st2)"

text \<open>
  The listener that \<^verbatim>\<open>notify\<close> installs. First the loop over the keys: a key that the
  non-empty frame starts with has its value called (a \<^verbatim>\<open>TypeError\<close> when the value is
  the array). Then every function of the array under \<^verbatim>\<open>_everyTime\<close> is called.
  Handlers are taken to return without touching the orchestrator; a call is recorded as
  \<open>Handler name frame\<close>.
\<close>

fun callSelected :: "string \<Rightarrow> (string \<times> nvalue) list \<Rightarrow> gprs \<Rightarrow> outcome \<times> gprs" where
  "callSelected frame [] st = (Silent, st)"
| "callSelected frame ((key, v) # kvs) st =
     (if frame \<noteq> [] \<and> startsWith frame key
      then (case v of
              Fn h \<Rightarrow> callSelected frame kvs (record_event (Handler h frame) st)
            | Arr ws \<Rightarrow> (Threw ''TypeError'', st))
      else callSelected frame kvs st)"

definition callEveryTime :: "string \<Rightarrow> gprs \<Rightarrow> outcome \<times> gprs" where
  "callEveryTime frame st =
     (case map_of (notificationCallbacks st) ''_everyTime'' of
        Some (Arr ws) \<Rightarrow> (Silent, st\<lparr>trace := trace st @ map (\<lambda>w. Handler w frame) ws\<rparr>)
      | _ \<Rightarrow> (Threw ''TypeError'', st))"

definition listener :: "string \<Rightarrow> gprs \<Rightarrow> outcome \<times> gprs" where
  "listener frame st =
     (case callSelected frame (notificationCallbacks st) st of
        (Threw exn, st1) \<Rightarrow> (Threw exn, st1)
      | (_, st1) \<Rightarrow> callEveryTime frame st1)"

text \<open>
  The Postmaster emits \<^verbatim>\<open>unsolicited\<close> with a frame: the installed listeners run one
  after the other, and an exception in one of them ends the emission.
\<close>

fun emitTo :: "nat \<Rightarrow> string \<Rightarrow> gprs \<Rightarrow> outcome \<times> gprs" where
  "emitTo 0 frame st = (Silent, st)"
| "emitTo (Suc n) frame st =
     (case listener frame st of
        (Threw exn, st1) \<Rightarrow> (Threw exn, st1)
      | (_, st1) \<Rightarrow> emitTo n frame st1)"

definition unsolicited :: "string \<Rightarrow> gprs \<Rightarrow> outcome \<times> gprs" where
  "unsolicited frame st = emitTo (subscriptions st) frame st"

subsection \<open>\<^verbatim>\<open>sendSMS\<close>\<close>

text \<open>
  \<^verbatim>\<open>parseInt(s, 10)\<close> on ASCII text: leading white space is skipped, then an optional
  sign, then the longest run of decimal digits; \<^verbatim>\<open>NaN\<close> (\<open>None\<close>) when there is no
  digit. The value is exact as long as it is below \<open>2 ^ 53\<close>.
\<close>

definition isSpace :: "char \<Rightarrow> bool" where
  "isSpace c = (c \<in> set [CHR 0x09, CHR 0x0A, CHR 0x0B, CHR 0x0C, CHR 0x0D, CHR 0x20])"

definition isDigit :: "char \<Rightarrow> bool" where
  "isDigit c = ((48::nat) \<le> of_char c \<and> (of_char c :: nat) \<le> 57)"

definition digitsValue :: "string \<Rightarrow> int" where
  "digitsValue ds = foldl (\<lambda>acc c. 10 * acc + (int (of_char c :: nat) - 48)) 0 ds"

definition parseInt :: "string \<Rightarrow> int option" where
  "parseInt s =
     (let t = dropWhile isSpace s;
          negative = (t \<noteq> [] \<and> hd t = CHR ''-'');
          u = (if t \<noteq> [] \<and> (hd t = CHR ''-'' \<or> hd t = CHR ''+'') then tl t else t);
          ds = takeWhile isDigit u
      in if ds = [] then None
         else Some (if negative then - digitsValue ds else digitsValue ds))"

definition quote :: char where
  "quote = CHR 0x22"

text \<open>The message of the last exchange, \<^verbatim>\<open>new Buffer([0x1a])\<close>, as a one-byte string.\<close>

definition ctrlZ :: string where
  "ctrlZ = [CHR 0x1A]"

definition confirmPattern :: alternate where
  "confirmPattern = Alternate [''+CMGS: '', ''ERROR''] [Some ''OK'', Some ''ERROR''] True"

text \<open>
  \<^verbatim>\<open>sendSMS\<close> of the first revision. The callback given to \<^verbatim>\<open>chain\<close> checks the
  last reply by hand and sends the terminating byte; the callback of that exchange has
  parameters \<^verbatim>\<open>err\<close> and \<^verbatim>\<open>data\<close> of its own, so the error it passes on when
  the confirmation is not recognised is the Postmaster's. \<^verbatim>\<open>data[0].indexOf\<close> throws
  when no frame was received.
\<close>

definition sendSMS :: "env \<Rightarrow> string \<Rightarrow> string \<Rightarrow> gprs \<Rightarrow> outcome \<times> gprs" where
  "sendSMS env number message st =
     (if number = []
      then (Called (Some (JSError ''Did not specify a 10+ digit number'' None)) DNull, st)
      else
        (let message = (if message = [] then ''text from a Tessel'' else message);
             openCommand = ''AT+CMGS='' @ [quote] @ number @ [quote];
             commands = [''AT+CMGF=1'', openCommand, message];
             patiences = [2000, 5000, 5000];
             replies = [Frames [''AT+CMGF=1'', ''OK''], Frames [openCommand, ''> ''],
                        Frames [message, ''> '']]
         in case chain env commands patiences replies st of
              (Called errr d, st1) \<Rightarrow>
                (let correct = (errr = None \<and>
                       (case d of DFrames fs \<Rightarrow> at fs 0 = Some message \<and> at fs 1 = Some ''> ''
                        | _ \<Rightarrow> False));
                     err = (case errr of Some e \<Rightarrow> Some e
                            | None \<Rightarrow> Some (JSError ''Unable to send SMS'' None))
                 in if correct
                    then
                      (case txrx env ctrlZ 10000 (Some confirmPattern) st1 of
                         ((err2, received), st2) \<Rightarrow>
                           (case at received 0 of
                              None \<Rightarrow> (Threw ''TypeError'', st2)
                            | Some first \<Rightarrow>
                                if startsWith first ''+CMGS: '' \<and> at received 1 = Some ''OK''
                                then (Called None (DId (parseInt (drop 7 first))), st2)
                                else (Called err2 (DId (Some (- 1))), st2)))
                    else (Called err (DId (Some (- 1))), st1))
            | other \<Rightarrow> other))"

text \<open>
  The second revision also refuses a number of fewer than 10 characters. Its
  \<^verbatim>\<open>_chain\<close> is the \<^verbatim>\<open>chain\<close> above except that the texts of its two errors
  begin with a capital letter, which the definition below does not reproduce.
\<close>

definition sendSMS2 :: "env \<Rightarrow> string \<Rightarrow> string \<Rightarrow> gprs \<Rightarrow> outcome \<times> gprs" where
  "sendSMS2 env number message st =
     (if number = [] \<or> length number < 10
      then (Called (Some (JSError ''Did not specify a 10+ digit number'' None)) DNull, st)
      else sendSMS env number message st)"

subsection \<open>Transports, registries and measures used below\<close>

text \<open>One probe followed by one power cycle, and the number of power cycles in a trace.\<close>

definition probeRound :: "event list" where
  "probeRound = Send ''AT'' 1000 (Some probePattern) # powerCycle 1000"

definition powerCycles :: "event list \<Rightarrow> nat" where
  "powerCycles tr = length (filter (\<lambda>e. e = PowerLow) tr)"

text \<open>The request that \<^verbatim>\<open>chain\<close> gives to the Postmaster for one step.\<close>

definition requestOf :: "string \<Rightarrow> int \<Rightarrow> expected \<Rightarrow> event" where
  "requestOf m p r =
     Send (if m = [] then ''AT'' else m) (max (if p = 0 then 250 else p) 100)
          (Some (Alternate [m] [case lastToken r of Inr token \<Rightarrow> token | Inl exn \<Rightarrow> None] False))"

text \<open>
  The calls of header handlers that one listener makes for a frame, and the registries in
  which the reserved key alone holds the array.
\<close>

definition headerCalls :: "string \<Rightarrow> (string \<times> nvalue) list \<Rightarrow> event list" where
  "headerCalls frame kvs =
     [Handler h frame. (key, Fn h) \<leftarrow> kvs, frame \<noteq> [] \<and> startsWith frame key]"

definition regular :: "(string \<times> nvalue) list \<Rightarrow> bool" where
  "regular kvs =
     list_all (\<lambda>(key, v). case v of Fn h \<Rightarrow> key \<noteq> ''_everyTime''
                                   | Arr ws \<Rightarrow> key = ''_everyTime'') kvs"

text \<open>A Postmaster that answers every request with a time-out and no frames.\<close>

definition timeoutError :: jserror where
  "timeoutError = JSError ''no reply'' (Some ''timeout'')"

definition deadTransport :: env where
  "deadTransport n = (Some timeoutError, [])"

text \<open>Postmasters that complete every request without error.\<close>

definition okTransport :: env where
  "okTransport n = (None, [''OK''])"


definition strayByteTransport :: env where
  "strayByteTransport n = (None, [NUL # ''AT+CMGF=1'', ''OK''])"

text \<open>
  The exchange of a successful \<^verbatim>\<open>sendSMS("1234567890", "hi")\<close>, and one in which the
  modem refuses the recipient.
\<close>

definition smsCommands :: "string list" where
  "smsCommands = [''AT+CMGF=1'', ''AT+CMGS='' @ [quote] @ ''1234567890'' @ [quote], ''hi'']"

definition smsReplies :: "expected list" where
  "smsReplies = [Frames [''AT+CMGF=1'', ''OK''],
                 Frames [''AT+CMGS='' @ [quote] @ ''1234567890'' @ [quote], ''> ''],
                 Frames [''hi'', ''> '']]"

definition smsTransport :: env where
  "smsTransport n =
     (if n = 0 then (None, [''AT+CMGF=1'', ''OK''])
      else if n = 1 then (None, [''AT+CMGS='' @ [quote] @ ''1234567890'' @ [quote], ''> ''])
      else if n = 2 then (None, [''hi'', ''> ''])
      else (None, [''+CMGS: 7'', ''OK'']))"

definition refusingTransport :: env where
  "refusingTransport n =
     (if n = 0 then (None, [''AT+CMGF=1'', ''OK'']) else (None, [''ERROR'']))"


text \<open>Orchestrators after one registration.\<close>

definition emptyHeaderRegistry :: gprs where
  "emptyHeaderRegistry = snd (notifyOn [([], ''onAny'')] (Some [''log'']) GPRS)"

definition cmtRegistry :: gprs where
  "cmtRegistry =
     snd (notifyOn [(''+CMT'', ''onSMS''), (''RING'', ''onRing'')] (Some [''log'']) GPRS)"

declare establishContact.simps [simp del]
declare chain.simps [simp del]

section \<open>Properties\<close>

subsection \<open>Contact establishment\<close>

lemma trace_record_event: "trace (record_event e st) = trace st @ [e]"
  by (simp add: record_event_def)

lemma txrx_dead:
  "txrx deadTransport ''AT'' 1000 alt st =
     ((Some timeoutError, []), record_event (Send ''AT'' 1000 alt) (st\<lparr>sent := Suc (sent st)\<rparr>))"
  by (simp add: txrx_def deadTransport_def)

lemma establishContact_default: "establishContact env rep 0 st = establishContact env rep 5 st"
  by (subst establishContact.simps, subst (2) establishContact.simps) simp

text \<open>
  On the dead transport the first revision probes and cycles the power for every value
  of \<open>rep\<close> from the first up to and including \<open>reps\<close>, and reports after that.
\<close>

lemma establishContact_dead:
  "reps \<noteq> 0 \<Longrightarrow> rep \<le> Suc reps \<Longrightarrow>
     establishContact deadTransport rep reps st =
       (Called (Some (contactFailed reps)) DFalse,
        st\<lparr>sent := sent st + (Suc reps - rep),
           trace := trace st @ concat (replicate (Suc reps - rep) probeRound)\<rparr>)"
proof (induction "Suc reps - rep" arbitrary: rep st)
  case 0
  then have "rep = Suc reps" by simp
  with 0 show ?case
    by (subst establishContact.simps) simp
next
  case (Suc n)
  then have le: "rep \<le> reps" and n: "n = Suc reps - Suc rep" by simp_all
  let ?st1 = "togglePower (record_event (Send ''AT'' 1000 (Some probePattern))
                 (st\<lparr>sent := Suc (sent st)\<rparr>))"
  have step: "establishContact deadTransport rep reps st =
      establishContact deadTransport (Suc rep) reps ?st1"
    using le Suc.prems(1)
    by (subst establishContact.simps) (simp add: txrx_dead timeoutError_def)
  have "Suc reps - rep = Suc (Suc reps - Suc rep)" using le by simp
  then show ?case
    using Suc.hyps(1) [OF n Suc.prems(1), of ?st1] le
    by (simp add: step togglePower_def record_event_def probeRound_def)
qed

lemma powerCycles_append: "powerCycles (xs @ ys) = powerCycles xs + powerCycles ys"
  by (simp add: powerCycles_def)

lemma powerCycles_probeRound: "powerCycles probeRound = 1"
  by (simp add: powerCycles_def probeRound_def powerCycle_def)

lemma powerCycles_rounds: "powerCycles (concat (replicate n probeRound)) = n"
  by (induction n) (simp_all add: powerCycles_append powerCycles_probeRound, simp add: powerCycles_def)

text \<open>
  C1. With the default ceiling and a transport on which every probe times out, the first
  revision makes six probes, each followed by a power cycle, before it calls the callback
  with the error whose text says ``after 5 attempt(s)'': the test \<^verbatim>\<open>rep > reps\<close> lets
  \<open>rep\<close> run from 0 to 5. The claim says five.
\<close>

theorem establishContact_dead_transport:
  "use deadTransport =
     (Called (Some (contactFailed 5)) DFalse,
      GPRS\<lparr>sent := 6, trace := concat (replicate 6 probeRound)\<rparr>)
   \<and> powerCycles (trace (snd (use deadTransport))) = 6"
proof -
  have "use deadTransport = (Called (Some (contactFailed 5)) DFalse,
        GPRS\<lparr>sent := sent GPRS + (Suc 5 - 0),
             trace := trace GPRS @ concat (replicate (Suc 5 - 0) probeRound)\<rparr>)"
    unfolding use_def establishContact_default
    by (rule establishContact_dead) simp_all
  moreover have "sent GPRS + (Suc 5 - 0) = 6" "trace GPRS = []" "Suc 5 - 0 = (6::nat)"
    by (simp_all add: GPRS_def)
  ultimately have eq: "use deadTransport = (Called (Some (contactFailed 5)) DFalse,
        GPRS\<lparr>sent := 6, trace := concat (replicate 6 probeRound)\<rparr>)"
    by simp
  have "trace (snd (use deadTransport)) = concat (replicate 6 probeRound)"
    unfolding eq by simp
  then have "powerCycles (trace (snd (use deadTransport))) = 6"
    by (simp only: powerCycles_rounds)
  with eq show ?thesis by blast
qed

text \<open>
  The second revision never compares \<open>rep\<close> with \<open>reps\<close>: on the dead transport it
  does not return, so the callback is never called.
\<close>

lemma establishContact2_returns_not_dead:
  assumes "establishContact2 env rep reps st = Some y"
  shows "env \<noteq> deadTransport"
proof (rule establishContact2.raw_induct
         [where P = "\<lambda>env rep reps st y. env \<noteq> deadTransport", OF _ assms])
  fix f :: "env \<Rightarrow> nat \<Rightarrow> nat \<Rightarrow> gprs \<Rightarrow> (outcome \<times> gprs) option"
    and env :: env and rep reps :: nat and st :: gprs and y :: "outcome \<times> gprs"
  assume IH: "\<And>env rep reps st y. f env rep reps st = Some y \<Longrightarrow> env \<noteq> deadTransport"
    and body: "(let reps = if reps = 0 then 5 else reps
      in case txrx env ''AT'' 1000 (Some probePattern2) st of
         ((err, received), st1) \<Rightarrow>
           (case err of
              None \<Rightarrow> Some (Called None (DFrames received), record_event (Emit ''ready'' []) st1)
            | Some e \<Rightarrow>
               if errType e = Some ''timeout''
               then f env (rep + 1) reps (togglePower2 st1)
               else Some (Called err DFalse, st1))) = Some y"
  show "env \<noteq> deadTransport"
  proof
    assume dead: "env = deadTransport"
    from body have "f deadTransport (rep + 1) (if reps = 0 then 5 else reps)
        (togglePower2 (snd (txrx deadTransport ''AT'' 1000 (Some probePattern2) st))) = Some y"
      by (simp add: dead txrx_def deadTransport_def timeoutError_def Let_def)
    from IH [OF this] show False by simp
  qed
qed

lemma establishContact2_dead_never_reports: "use2 deadTransport = None"
  using establishContact2_returns_not_dead [of deadTransport 0 0 GPRS]
  by (cases "establishContact2 deadTransport 0 0 GPRS") (auto simp: use2_def)

subsection \<open>Chains\<close>

lemma foldl_conj:
  "foldl (\<lambda>c i. c \<and> P i) b xs = (b \<and> (\<forall>i\<in>set xs. P i))"
  by (induction xs arbitrary: b) auto

text \<open>What the validator of an intermediate step computes.\<close>

lemma intermediate_Frames:
  "intermediate (Frames expect) err received =
     (err = None \<and> length received \<le> length expect \<and>
      (\<forall>i<length received. expect ! i \<in> set (variants (received ! i))))"
proof -
  have "intermediate (Frames expect) err received =
      (err = None \<and> (\<forall>i<length received.
          i < length expect \<and> expect ! i \<in> set (variants (received ! i))))"
    unfolding intermediate_def Let_def expected.case foldl_conj
    by (auto simp: at_def split: option.splits if_splits)
  also have "\<dots> = (err = None \<and> length received \<le> length expect \<and>
      (\<forall>i<length received. expect ! i \<in> set (variants (received ! i))))"
  proof (cases "length received \<le> length expect")
    case True
    then show ?thesis by auto
  next
    case False
    then have "length expect < length received" by simp
    then have "\<not> (\<forall>i<length received.
        i < length expect \<and> expect ! i \<in> set (variants (received ! i)))"
      by (auto intro!: exI [of _ "length expect"])
    with False show ?thesis by simp
  qed
  finally show ?thesis .
qed

lemma intermediate_Falsy: "intermediate Falsy err received = (err = None)"
  by (simp add: intermediate_def)

text \<open>Replies that the validator rejects: any reply with an error, a reply with more
  frames than expected, a reply with a frame that fails the test at its position.\<close>

lemma intermediate_rejects_error:
  "err \<noteq> None \<Longrightarrow> r \<noteq> Nullish \<Longrightarrow> \<not> intermediate r err received"
  by (cases r) (simp_all add: intermediate_Frames intermediate_Falsy)

lemma intermediate_rejects_longer:
  "length expect < length received \<Longrightarrow> \<not> intermediate (Frames expect) err received"
  by (simp add: intermediate_Frames)

lemma intermediate_rejects_wrong_frame:
  "i < length received \<Longrightarrow> expect ! i \<notin> set (variants (received ! i)) \<Longrightarrow>
     \<not> intermediate (Frames expect) err received"
  by (auto simp: intermediate_Frames)

text \<open>One step of a chain that is not its last step.\<close>

lemma chain_step:
  assumes "length ms = length ps" "length ms = length rs" "ms \<noteq> []" "r \<noteq> Nullish"
  shows "chain env (m # ms) (p # ps) (r # rs) st =
     (let correct = intermediate r (fst (env (sent st))) (snd (env (sent st)));
          st2 = st\<lparr>sent := Suc (sent st),
                   trace := trace st @ [requestOf m p r, Emit ''intermediate'' [correct]]\<rparr>
      in if correct then chain env ms ps rs st2
         else (Called (Some (chainBroke m)) DFalse, st2\<lparr>trace := trace st2 @ [ForceClear]\<rparr>))"
proof -
  obtain token where tok: "lastToken r = Inr token"
    using assms(4) by (cases r) auto
  have ne: "length ms \<noteq> 0" "length ps = length ms" "length rs = length ms"
    using assms(1-3) by auto
  show ?thesis
    using assms(3)
    by (subst chain.simps)
       (simp add: ne tok txrx_def requestOf_def record_event_def Let_def split: prod.splits)
qed

lemma upt_Suc_shift: "[0..<Suc n] = 0 # map Suc [0..<n]"
  by (simp add: upt_conv_Cons map_Suc_upt del: upt_Suc)

text \<open>
  The abort path. In a chain whose arrays have equal lengths, let step \<open>k\<close> (counted
  from 0) not be the last one, let the expected replies up to step \<open>k\<close> be arrays or
  false-y values other than \<^verbatim>\<open>null\<close>, let the validator accept the replies of the
  steps before \<open>k\<close> and reject that of step \<open>k\<close>. Then the chain makes exactly the
  requests \<open>0, \<dots>, k\<close>, calls \<^verbatim>\<open>forceClear\<close> last, and calls the callback with
  \<^verbatim>\<open>false\<close> and an error whose text is ``chain broke on '' followed by the message
  of step \<open>k\<close> (``Chain broke on '' in the second revision); the error names the
  command, not the index of the step.
\<close>

lemma chain_aborts_when_validator_rejects:
  assumes "length ms = length ps" and "length ms = length rs"
    and "Suc k < length ms"
    and "\<forall>j\<le>k. rs ! j \<noteq> Nullish"
    and "\<forall>j<k. intermediate (rs ! j) (fst (env (sent st + j))) (snd (env (sent st + j)))"
    and "\<not> intermediate (rs ! k) (fst (env (sent st + k))) (snd (env (sent st + k)))"
  shows "chain env ms ps rs st =
     (Called (Some (JSError (''chain broke on '' @ ms ! k) None)) DFalse,
      st\<lparr>sent := sent st + Suc k,
         trace := trace st
           @ concat (map (\<lambda>j. [requestOf (ms ! j) (ps ! j) (rs ! j), Emit ''intermediate'' [j < k]])
                         [0..<Suc k])
           @ [ForceClear]\<rparr>)"
  using assms unfolding chainBroke_def [symmetric]
proof (induction k arbitrary: ms ps rs st)
  case 0
  then obtain m ms' p ps' r rs' where
    split: "ms = m # ms'" "ps = p # ps'" "rs = r # rs'"
    by (cases ms; cases ps; cases rs) auto
  with 0 have side: "length ms' = length ps'" "length ms' = length rs'" "ms' \<noteq> []" "r \<noteq> Nullish"
    by auto
  from 0 split have bad: "\<not> intermediate r (fst (env (sent st))) (snd (env (sent st)))"
    by simp
  show ?case
    unfolding split chain_step [OF side]
    using bad by (simp add: Let_def)
next
  case (Suc k)
  then obtain m ms' p ps' r rs' where
    split: "ms = m # ms'" "ps = p # ps'" "rs = r # rs'"
    by (cases ms; cases ps; cases rs) auto
  with Suc.prems have side:
    "length ms' = length ps'" "length ms' = length rs'" "ms' \<noteq> []" "r \<noteq> Nullish"
    by auto
  from Suc.prems(5) split have good: "intermediate r (fst (env (sent st))) (snd (env (sent st)))"
    by auto
  define st2 where "st2 = st\<lparr>sent := Suc (sent st),
       trace := trace st @ [requestOf m p r, Emit ''intermediate'' [True]]\<rparr>"
  have step: "chain env ms ps rs st = chain env ms' ps' rs' st2"
    unfolding split chain_step [OF side] st2_def
    using good by (simp add: Let_def)
  have k: "Suc k < length ms'"
    using Suc.prems(3) split by simp
  have nn: "\<forall>j\<le>k. rs' ! j \<noteq> Nullish"
    using Suc.prems(4) split by auto
  have ok: "\<forall>j<k. intermediate (rs' ! j) (fst (env (sent st2 + j))) (snd (env (sent st2 + j)))"
    using Suc.prems(5) split by (auto simp: st2_def)
  have bad: "\<not> intermediate (rs' ! k) (fst (env (sent st2 + k))) (snd (env (sent st2 + k)))"
    using Suc.prems(6) split by (simp add: st2_def)
  have "chain env ms' ps' rs' st2 =
     (Called (Some (chainBroke (ms' ! k))) DFalse,
      st2\<lparr>sent := sent st2 + Suc k,
         trace := trace st2
           @ concat (map (\<lambda>j. [requestOf (ms' ! j) (ps' ! j) (rs' ! j),
                                 Emit ''intermediate'' [j < k]])
                         [0..<Suc k])
           @ [ForceClear]\<rparr>)"
    by (rule Suc.IH [OF side(1,2) k nn ok bad])
  then show ?case
    unfolding step
    by (simp add: split st2_def upt_Suc_shift [of "Suc k"] comp_def del: upt_Suc)
qed

lemma chain_aborts_when_validator_rejects_example:
  "length smsCommands = length [2000, 5000, 5000 :: int]
   \<and> length smsCommands = length smsReplies
   \<and> Suc (Suc 0) < length smsCommands
   \<and> smsReplies ! 0 \<noteq> Nullish \<and> smsReplies ! Suc 0 \<noteq> Nullish
   \<and> intermediate (smsReplies ! 0) (fst (refusingTransport (sent GPRS + 0)))
                                   (snd (refusingTransport (sent GPRS + 0)))
   \<and> \<not> intermediate (smsReplies ! Suc 0) (fst (refusingTransport (sent GPRS + Suc 0)))
                                   (snd (refusingTransport (sent GPRS + Suc 0)))
   \<and> fst (chain refusingTransport smsCommands [2000, 5000, 5000] smsReplies GPRS)
       = Called (Some (JSError (''chain broke on AT+CMGS='' @ [quote] @ ''1234567890'' @ [quote])
                         None)) DFalse
   \<and> sent (snd (chain refusingTransport smsCommands [2000, 5000, 5000] smsReplies GPRS)) = 2
   \<and> last (trace (snd (chain refusingTransport smsCommands [2000, 5000, 5000] smsReplies GPRS)))
       = ForceClear"
proof -
  have h1: "length smsCommands = length [2000, 5000, 5000 :: int]"
    and h2: "length smsCommands = length smsReplies"
    and h3: "Suc (Suc 0) < length smsCommands"
    by (simp_all add: smsCommands_def smsReplies_def)
  have h4: "\<forall>j\<le>Suc 0. smsReplies ! j \<noteq> Nullish"
    by (auto simp: smsReplies_def le_Suc_eq)
  have h5': "intermediate (smsReplies ! 0) (fst (refusingTransport 0)) (snd (refusingTransport 0))"
    by code_simp
  then have h5: "\<forall>j<Suc 0. intermediate (smsReplies ! j) (fst (refusingTransport (sent GPRS + j)))
                                   (snd (refusingTransport (sent GPRS + j)))"
    by (simp add: GPRS_def)
  have "\<not> intermediate (smsReplies ! Suc 0) (fst (refusingTransport (Suc 0)))
                        (snd (refusingTransport (Suc 0)))"
    by code_simp
  then have h6: "\<not> intermediate (smsReplies ! Suc 0) (fst (refusingTransport (sent GPRS + Suc 0)))
                                   (snd (refusingTransport (sent GPRS + Suc 0)))"
    by (simp add: GPRS_def)
  have nth: "smsCommands ! Suc 0 = ''AT+CMGS='' @ [quote] @ ''1234567890'' @ [quote]"
    by (simp add: smsCommands_def)
  note run = chain_aborts_when_validator_rejects [OF h1 h2 h3 h4 h5 h6]
  have "fst (chain refusingTransport smsCommands [2000, 5000, 5000] smsReplies GPRS)
       = Called (Some (JSError (''chain broke on AT+CMGS='' @ [quote] @ ''1234567890'' @ [quote])
                         None)) DFalse"
    unfolding run nth by simp
  moreover
  have "sent (snd (chain refusingTransport smsCommands [2000, 5000, 5000] smsReplies GPRS)) = 2"
    unfolding run by (simp add: GPRS_def)
  moreover
  have "last (trace (snd (chain refusingTransport smsCommands [2000, 5000, 5000] smsReplies GPRS)))
       = ForceClear"
    unfolding run by simp
  moreover have "smsReplies ! 0 \<noteq> Nullish" "smsReplies ! Suc 0 \<noteq> Nullish"
    using h4 by simp_all
  moreover
  have "intermediate (smsReplies ! 0) (fst (refusingTransport (sent GPRS + 0)))
                                   (snd (refusingTransport (sent GPRS + 0)))"
    using h5' by (simp add: GPRS_def)
  ultimately show ?thesis
    using h1 h2 h3 h6 by blast
qed


text \<open>
  C3. The validator looks the expected token up among the received frame and the received
  frame with a byte put before it, so the tolerance runs the other way round: a received
  frame that is the expected token after a stray NUL is rejected, and the chain aborts.
\<close>

theorem intermediate_rejects_stray_byte:
  "intermediate (Frames [''AT+CMGF=1'', ''OK'']) None [NUL # ''AT+CMGF=1'', ''OK''] = False
   \<and> chain strayByteTransport [''AT+CMGF=1'', ''AT''] [2000, 1000]
        [Frames [''AT+CMGF=1'', ''OK''], Frames [''AT'', ''OK'']] GPRS
     = (Called (Some (chainBroke ''AT+CMGF=1'')) DFalse,
        GPRS\<lparr>sent := 1,
             trace := [Send ''AT+CMGF=1'' 2000 (Some (Alternate [''AT+CMGF=1''] [Some ''OK''] False)),
                       Emit ''intermediate'' [False], ForceClear]\<rparr>)"
  by code_simp

text \<open>What is accepted instead: an expected token that carries the byte.\<close>

lemma intermediate_accepts_prefixed_expectation:
  "intermediate (Frames [NUL # ''AT'', ''OK'']) None [''AT'', ''OK'']"
  by code_simp

lemma intermediate_stray_byte_general:
  assumes "e \<noteq> []" and "hd e \<noteq> NUL" and "hd e \<noteq> backslash"
  shows "\<not> intermediate (Frames (e # es)) err ((NUL # e) # ds)"
proof -
  have "e \<notin> set (variants (NUL # e))"
    using assms by (cases e) (auto simp: variants_def)
  then have "\<not> (\<forall>i<length ((NUL # e) # ds).
      (e # es) ! i \<in> set (variants (((NUL # e) # ds) ! i)))"
    by (auto intro!: exI [of _ 0])
  then show ?thesis
    unfolding intermediate_Frames by blast
qed

text \<open>
  C8. The request of a step reads the last element of the expected reply before anything
  is sent, so a step whose expected reply is \<^verbatim>\<open>null\<close> throws a \<^verbatim>\<open>TypeError\<close>:
  nothing is sent and the callback is not called.
\<close>

theorem chain_null_reply_throws:
  "chain okTransport [''AT+CMGF=1'', ''AT''] [2000, 1000] [Nullish, Frames [''AT'', ''OK'']] GPRS
     = (Threw ''TypeError'', GPRS)"
  by code_simp

lemma chain_nullish_step_throws:
  "length ms = length ps \<Longrightarrow> length ms = length rs \<Longrightarrow>
     chain env (m # ms) (p # ps) (Nullish # rs) st = (Threw ''TypeError'', st)"
  by (subst chain.simps) simp

text \<open>A false-y entry that is not \<^verbatim>\<open>null\<close> does let the chain go on after any reply
  without error.\<close>

lemma chain_falsy_step_advances:
  assumes "length ms = length ps" "length ms = length rs" "ms \<noteq> []"
    and "fst (env (sent st)) = None"
  shows "chain env (m # ms) (p # ps) (Falsy # rs) st =
     chain env ms ps rs
       (st\<lparr>sent := Suc (sent st),
           trace := trace st @ [requestOf m p Falsy, Emit ''intermediate'' [True]]\<rparr>)"
  by (subst chain_step [OF assms(1-3)]) (simp_all add: intermediate_Falsy assms(4) Let_def)



subsection \<open>The floor on patience\<close>

text \<open>
  C4, as stated, fails: a patience of \<open>0\<close> is below the floor of 100, and the request is
  made with the default of 250, not with the floor.
\<close>

theorem txrx_patience_zero_counterexample:
  "(0::int) < 100 \<and> trace (snd (txrx deadTransport ''AT'' 0 None GPRS)) = [Send ''AT'' 250 None]
     \<and> (250::int) \<noteq> 100"
  by (simp add: txrx_def GPRS_def record_event_def)

text \<open>
  C4, amended: for every patience below 100 the request given to the Postmaster carries
  exactly 100, except for a patience of \<open>0\<close>, which counts as absent and is replaced by the
  default of 250; the caller's smaller value is never used.
\<close>

theorem txrx_patience_floor:
  "patience < 100 \<Longrightarrow>
     trace (snd (txrx env message patience alt st)) =
       trace st @ [Send (if message = [] then ''AT'' else message)
                        (if patience = 0 then 250 else 100) alt]"
  by (simp add: txrx_def Let_def trace_record_event)

theorem txrx_patience_floor_witness:
  "(40::int) < 100 \<and> trace (snd (txrx deadTransport ''ATA'' 40 None GPRS)) = [Send ''ATA'' 100 None]"
  using txrx_patience_floor [of 40 deadTransport "''ATA''" None GPRS]
  by (simp add: GPRS_def)

lemma txrx_patience_at_least_floor:
  "\<exists>m p. trace (snd (txrx env message patience alt st)) = trace st @ [Send m p alt] \<and> 100 \<le> p"
  by (simp add: txrx_def Let_def trace_record_event)

subsection \<open>Sending a text message\<close>

text \<open>
  C5. \<^verbatim>\<open>sendSMS("1234567890", "hi")\<close>, in either revision, on a Postmaster that
  completes the mode-set request with its echo and \<^verbatim>\<open>OK\<close>, the recipient request and
  the body each with its echo and the prompt, and the terminating byte with
  \<^verbatim>\<open>+CMGS: 7\<close> and \<^verbatim>\<open>OK\<close>, makes four requests and calls its callback with no
  error and the identifier 7.
\<close>

theorem sendSMS_round_trip:
  "fst (sendSMS smsTransport ''1234567890'' ''hi'' GPRS) = Called None (DId (Some 7))
   \<and> sent (snd (sendSMS smsTransport ''1234567890'' ''hi'' GPRS)) = 4
   \<and> fst (sendSMS2 smsTransport ''1234567890'' ''hi'' GPRS) = Called None (DId (Some 7))
   \<and> sent (snd (sendSMS2 smsTransport ''1234567890'' ''hi'' GPRS)) = 4"
  by code_simp

subsection \<open>The call flag\<close>

text \<open>
  C9. After \<^verbatim>\<open>dial\<close> has transmitted and its exchange has completed, the flag of the
  orchestrator is still set, and a second \<^verbatim>\<open>dial\<close> is refused: the callback clears
  \<^verbatim>\<open>inACall\<close> on its own \<^verbatim>\<open>this\<close>.
\<close>

theorem dial_flag_not_cleared:
  "fst (dial okTransport ''1234567890'' GPRS) = Called None (DFrames [''OK''])
   \<and> inACall (snd (dial okTransport ''1234567890'' GPRS)) = True
   \<and> receiverInACall (snd (dial okTransport ''1234567890'' GPRS)) = Some False
   \<and> dial okTransport ''0987654321'' (snd (dial okTransport ''1234567890'' GPRS))
       = (Called (Some (JSError ''Currently in a call'' None)) (DFrames []),
          snd (dial okTransport ''1234567890'' GPRS))"
  by code_simp

lemma dial_leaves_flag_set:
  "\<not> inACall st \<Longrightarrow> 10 \<le> length number \<Longrightarrow> inACall (snd (dial env number st))"
  by (auto simp: dial_def txrx_def record_event_def Let_def split: prod.splits)

lemma hangUp_clears_flag: "\<not> inACall (snd (hangUp env st))"
  by (simp add: hangUp_def txrx_def Let_def split: prod.splits)

subsection \<open>Notifications\<close>

lemma headerCalls_Nil: "headerCalls frame [] = []"
  by (simp add: headerCalls_def)

lemma headerCalls_Cons:
  "headerCalls frame ((key, v) # kvs) =
     (case v of Fn h \<Rightarrow> (if frame \<noteq> [] \<and> startsWith frame key then [Handler h frame] else [])
      | Arr ws \<Rightarrow> []) @ headerCalls frame kvs"
  by (simp add: headerCalls_def split: nvalue.splits)

lemma callSelected_regular:
  assumes "regular kvs" and "\<not> startsWith frame ''_everyTime''"
  shows "callSelected frame kvs st = (Silent, st\<lparr>trace := trace st @ headerCalls frame kvs\<rparr>)"
  using assms(1)
proof (induction kvs arbitrary: st)
  case Nil
  show ?case by (simp add: headerCalls_Nil)
next
  case (Cons kv kvs)
  obtain key v where kv: "kv = (key, v)" by (cases kv)
  from Cons.prems have reg: "regular kvs"
    and here: "case v of Fn h \<Rightarrow> key \<noteq> ''_everyTime'' | Arr ws \<Rightarrow> key = ''_everyTime''"
    by (simp_all add: regular_def kv)
  show ?case
  proof (cases v)
    case (Fn h)
    then show ?thesis
      using Cons.IH [OF reg] by (simp add: kv headerCalls_Cons record_event_def)
  next
    case (Arr ws)
    with here have "key = ''_everyTime''" by simp
    with assms(2) have "\<not> startsWith frame key" by simp
    then show ?thesis
      using Cons.IH [OF reg] Arr by (simp add: kv headerCalls_Cons)
  qed
qed

lemma listener_regular:
  assumes "regular (notificationCallbacks st)" and "\<not> startsWith frame ''_everyTime''"
    and "map_of (notificationCallbacks st) ''_everyTime'' = Some (Arr ws)"
  shows "listener frame st =
     (Silent, st\<lparr>trace := trace st @ headerCalls frame (notificationCallbacks st)
                                   @ map (\<lambda>w. Handler w frame) ws\<rparr>)"
  by (simp add: listener_def callSelected_regular [OF assms(1,2)] callEveryTime_def assms(3))

lemma emitTo_regular:
  assumes "regular (notificationCallbacks st)" and "\<not> startsWith frame ''_everyTime''"
    and "map_of (notificationCallbacks st) ''_everyTime'' = Some (Arr ws)"
  shows "emitTo n frame st =
     (Silent, st\<lparr>trace := trace st @ concat (replicate n
         (headerCalls frame (notificationCallbacks st) @ map (\<lambda>w. Handler w frame) ws))\<rparr>)"
  using assms
proof (induction n arbitrary: st)
  case 0
  show ?case by simp
next
  case (Suc n)
  let ?st1 = "st\<lparr>trace := trace st @ headerCalls frame (notificationCallbacks st)
                                   @ map (\<lambda>w. Handler w frame) ws\<rparr>"
  have l: "listener frame st = (Silent, ?st1)"
    by (rule listener_regular [OF Suc.prems])
  have "emitTo n frame ?st1 = (Silent, ?st1\<lparr>trace := trace ?st1 @ concat (replicate n
         (headerCalls frame (notificationCallbacks ?st1) @ map (\<lambda>w. Handler w frame) ws))\<rparr>)"
    by (rule Suc.IH) (use Suc.prems in simp_all)
  then show ?case
    by (simp add: l)
qed

text \<open>
  Registries of this shape are the ones that the constructor makes and that
  \<^verbatim>\<open>notifyOn\<close> keeps, as long as no header is the reserved key itself.
\<close>

lemma map_of_assign:
  "map_of (assign k v kvs) k' = (if k' = k then Some v else map_of kvs k')"
  by (induction kvs) auto

lemma regular_Nil: "regular []"
  by (simp add: regular_def)

lemma regular_Cons:
  "regular ((k, v) # kvs) =
     ((case v of Fn h \<Rightarrow> k \<noteq> ''_everyTime'' | Arr ws \<Rightarrow> k = ''_everyTime'') \<and> regular kvs)"
  by (simp add: regular_def)

lemma regular_assign_Fn:
  "regular kvs \<Longrightarrow> k \<noteq> ''_everyTime'' \<Longrightarrow> regular (assign k (Fn h) kvs)"
  by (induction kvs) (auto simp: regular_Nil regular_Cons split: nvalue.splits)

lemma regular_assign_Arr:
  "regular kvs \<Longrightarrow> regular (assign ''_everyTime'' (Arr ws) kvs)"
  by (induction kvs) (auto simp: regular_Nil regular_Cons split: nvalue.splits)

lemma register_pairs_regular:
  assumes "regular (notificationCallbacks st)"
    and "map_of (notificationCallbacks st) ''_everyTime'' = Some (Arr ws)"
    and "''_everyTime'' \<notin> fst ` set pairs"
  shows "regular (notificationCallbacks (foldl (\<lambda>s (newKey, h).
            s\<lparr>notificationCallbacks := assign newKey (Fn h) (notificationCallbacks s)\<rparr>) st pairs))
    \<and> map_of (notificationCallbacks (foldl (\<lambda>s (newKey, h).
            s\<lparr>notificationCallbacks := assign newKey (Fn h) (notificationCallbacks s)\<rparr>) st pairs))
          ''_everyTime'' = Some (Arr ws)"
  using assms
proof (induction pairs arbitrary: st)
  case Nil
  then show ?case by simp
next
  case (Cons kh pairs)
  obtain k h where kh: "kh = (k, h)" by (cases kh)
  with Cons.prems(3) have k: "k \<noteq> ''_everyTime''" and rest: "''_everyTime'' \<notin> fst ` set pairs"
    by auto
  let ?st1 = "st\<lparr>notificationCallbacks := assign k (Fn h) (notificationCallbacks st)\<rparr>"
  have "regular (notificationCallbacks ?st1)"
    using Cons.prems(1) k by (simp add: regular_assign_Fn)
  moreover have "map_of (notificationCallbacks ?st1) ''_everyTime'' = Some (Arr ws)"
    using Cons.prems(2) k by (simp add: map_of_assign)
  ultimately show ?case
    using Cons.IH [of ?st1, OF _ _ rest] by (simp add: kh)
qed

lemma pushEach_regular:
  assumes "regular (notificationCallbacks st)"
    and "map_of (notificationCallbacks st) ''_everyTime'' = Some (Arr ws)"
  shows "fst (pushEach fs st) = Silent
    \<and> regular (notificationCallbacks (snd (pushEach fs st)))
    \<and> map_of (notificationCallbacks (snd (pushEach fs st))) ''_everyTime'' = Some (Arr (ws @ fs))"
  using assms
proof (induction fs arbitrary: st ws)
  case Nil
  then show ?case by simp
next
  case (Cons f fs)
  let ?st1 = "st\<lparr>notificationCallbacks :=
                  assign ''_everyTime'' (Arr (ws @ [f])) (notificationCallbacks st)\<rparr>"
  have "regular (notificationCallbacks ?st1)"
    using Cons.prems(1) by (simp add: regular_assign_Arr)
  moreover have "map_of (notificationCallbacks ?st1) ''_everyTime'' = Some (Arr (ws @ [f]))"
    by (simp add: map_of_assign)
  ultimately show ?case
    using Cons.IH [of ?st1 "ws @ [f]"] Cons.prems(2) by simp
qed

lemma notifyOn_keeps_regular:
  assumes "regular (notificationCallbacks st)"
    and "map_of (notificationCallbacks st) ''_everyTime'' = Some (Arr ws)"
    and "''_everyTime'' \<notin> fst ` set pairs"
  shows "fst (notifyOn pairs everyTime st) = Silent
    \<and> regular (notificationCallbacks (snd (notifyOn pairs everyTime st)))
    \<and> map_of (notificationCallbacks (snd (notifyOn pairs everyTime st))) ''_everyTime''
        = Some (Arr (ws @ (case everyTime of None \<Rightarrow> [] | Some fs \<Rightarrow> fs)))"
proof -
  let ?st1 = "if length (notificationCallbacks st) < 2 then notify st else st"
  have a: "regular (notificationCallbacks ?st1)"
    and b: "map_of (notificationCallbacks ?st1) ''_everyTime'' = Some (Arr ws)"
    using assms(1,2) by (simp_all add: notify_def record_event_def)
  note reg = register_pairs_regular [OF a b assms(3)]
  show ?thesis
  proof (cases everyTime)
    case None
    then show ?thesis using reg by (simp add: notifyOn_def Let_def)
  next
    case (Some fs)
    then show ?thesis
      using pushEach_regular [OF conjunct1 [OF reg] conjunct2 [OF reg], of fs]
      by (simp add: notifyOn_def Let_def)
  qed
qed

lemma GPRS_regular:
  "regular (notificationCallbacks GPRS) \<and> map_of (notificationCallbacks GPRS) ''_everyTime'' = Some (Arr [])"
  by (simp add: GPRS_def regular_def)

text \<open>
  C6, as stated, fails in two places. For the empty frame the guard \<^verbatim>\<open>data &&\<close> keeps
  every header handler from being called, also the one registered under the empty token,
  which is a prefix of the frame. For a frame that starts with the reserved key
  \<^verbatim>\<open>_everyTime\<close> the loop over the keys calls the array of wildcard handlers as if it
  were a handler: a \<^verbatim>\<open>TypeError\<close>, and no wildcard handler runs.
\<close>

theorem unsolicited_counterexample:
  "startsWith [] [] \<and> map_of (notificationCallbacks emptyHeaderRegistry) [] = Some (Fn ''onAny'')
   \<and> subscriptions emptyHeaderRegistry = 1
   \<and> trace (snd (unsolicited [] emptyHeaderRegistry)) = [Subscribe, Handler ''log'' []]
   \<and> startsWith ''_everyTime'' ''_everyTime''
   \<and> map_of (notificationCallbacks cmtRegistry) ''_everyTime'' = Some (Arr [''log''])
   \<and> unsolicited ''_everyTime'' cmtRegistry = (Threw ''TypeError'', cmtRegistry)"
  by code_simp

text \<open>
  C6, amended: on an orchestrator whose registry keeps the wildcard handlers \<open>ws\<close> under
  the reserved key and a handler under every other key, for every unsolicited frame that
  does not start with the reserved key, each listener installed by \<^verbatim>\<open>notify\<close> calls, in
  the order of the keys, exactly the header handlers whose token is a prefix of the frame
  when the frame is not empty and none when it is empty, and after them every wildcard
  handler.
\<close>

theorem unsolicited_dispatch:
  assumes "regular (notificationCallbacks st)"
    and "map_of (notificationCallbacks st) ''_everyTime'' = Some (Arr ws)"
    and "\<not> startsWith frame ''_everyTime''"
  shows "unsolicited frame st =
     (Silent, st\<lparr>trace := trace st @ concat (replicate (subscriptions st)
         ([Handler h frame. (key, Fn h) \<leftarrow> notificationCallbacks st,
                            frame \<noteq> [] \<and> startsWith frame key]
          @ map (\<lambda>w. Handler w frame) ws))\<rparr>)"
  unfolding unsolicited_def emitTo_regular [OF assms(1,3,2)] headerCalls_def ..

theorem unsolicited_dispatch_witness:
  "regular (notificationCallbacks cmtRegistry)
   \<and> map_of (notificationCallbacks cmtRegistry) ''_everyTime'' = Some (Arr [''log''])
   \<and> \<not> startsWith ''+CMT: 12'' ''_everyTime''
   \<and> trace (snd (unsolicited ''+CMT: 12'' cmtRegistry))
       = [Subscribe, Handler ''onSMS'' ''+CMT: 12'', Handler ''log'' ''+CMT: 12'']"
proof -
  have h1: "regular (notificationCallbacks cmtRegistry)"
    and h2: "map_of (notificationCallbacks cmtRegistry) ''_everyTime'' = Some (Arr [''log''])"
    and h3: "\<not> startsWith ''+CMT: 12'' ''_everyTime''"
    by code_simp+
  have cb: "notificationCallbacks cmtRegistry =
      [(''_everyTime'', Arr [''log'']), (''+CMT'', Fn ''onSMS''), (''RING'', Fn ''onRing'')]"
    and sub: "subscriptions cmtRegistry = 1" and tr: "trace cmtRegistry = [Subscribe]"
    by code_simp+
  have s1: "startsWith ''+CMT: 12'' ''+CMT''" and s2: "\<not> startsWith ''+CMT: 12'' ''RING''"
    by code_simp+
  have "trace (snd (unsolicited ''+CMT: 12'' cmtRegistry))
       = [Subscribe, Handler ''onSMS'' ''+CMT: 12'', Handler ''log'' ''+CMT: 12'']"
    unfolding unsolicited_dispatch [OF h1 h2 h3]
    by (simp add: cb sub tr s1 s2)
  with h1 h2 h3 show ?thesis by blast
qed

text \<open>
  C7. \<^verbatim>\<open>notifyOn\<close> takes a registry with fewer than two keys for the sign of a first
  call. A first registration of wildcard handlers alone adds no key, so the next
  registration subscribes again, and from then on every unsolicited frame reaches every
  handler twice.
\<close>

theorem notifyOn_subscribes_twice:
  "notifyOn [] (Some [''log'']) GPRS
     = (Silent, GPRS\<lparr>notificationCallbacks := [(''_everyTime'', Arr [''log''])],
                     subscriptions := 1, trace := [Subscribe]\<rparr>)
   \<and> notifyOn [(''RING'', ''onRing'')] None (snd (notifyOn [] (Some [''log'']) GPRS))
     = (Silent, GPRS\<lparr>notificationCallbacks :=
                        [(''_everyTime'', Arr [''log'']), (''RING'', Fn ''onRing'')],
                     subscriptions := 2, trace := [Subscribe, Subscribe]\<rparr>)
   \<and> trace (snd (unsolicited ''RING''
        (snd (notifyOn [(''RING'', ''onRing'')] None (snd (notifyOn [] (Some [''log'']) GPRS))))))
     = [Subscribe, Subscribe, Handler ''onRing'' ''RING'', Handler ''log'' ''RING'',
        Handler ''onRing'' ''RING'', Handler ''log'' ''RING'']"
  by code_simp

text \<open>A registration that adds a header does stop later ones from subscribing.\<close>

lemma notifyOn_no_resubscription:
  "2 \<le> length (notificationCallbacks st) \<Longrightarrow>
     subscriptions (snd (notifyOn [] None st)) = subscriptions st"
  by (simp add: notifyOn_def)

end
